theory Spec2Isabelle
  imports Complex_Main "HOL-Library.AList"
begin

section \<open>Qmighty: a sequential queue of LAMMPS runs\<close>

text \<open>
  A shallow embedding of \<^verbatim>\<open>qmighty.py\<close>. Python strings are \<open>string\<close> (every \<open>char\<close>
  read as a code point below 256), Python's unbounded integers are \<open>nat\<close> or \<open>int\<close>, finite
  floats are \<open>rat\<close> (\<open>pyfloat\<close> where a float may be an infinity or not a number).
  Every exception the source can raise is a value of \<open>error\<close>. What the program reads
  from outside (the file system, the clock, the launched processes and the log reader
  \<^verbatim>\<open>lammps_logfile\<close>) is the record \<open>env\<close>, and what it does to the outside (the
  terminal, the launches) is a list of \<open>event\<close>s.
\<close>

subsection \<open>Strings: \<^verbatim>\<open>a in b\<close>, \<^verbatim>\<open>str.split()\<close>, \<^verbatim>\<open>os.path.join\<close>\<close>

fun startswith :: "string \<Rightarrow> string \<Rightarrow> bool" where
  "startswith [] s = True"
| "startswith (p # ps) [] = False"
| "startswith (p # ps) (c # cs) = (p = c \<and> startswith ps cs)"

text \<open>\<^verbatim>\<open>sub in s\<close> on two Python strings: \<open>sub\<close> starts at some position of \<open>s\<close>.\<close>

fun str_in :: "string \<Rightarrow> string \<Rightarrow> bool" where
  "str_in sub [] = (sub = [])"
| "str_in sub (c # cs) = (startswith sub (c # cs) \<or> str_in sub cs)"

text \<open>
  The characters \<^verbatim>\<open>str.isspace\<close> accepts among the code points below 256: tab, line feed,
  vertical tab, form feed, carriage return, the four separators 0x1C to 0x1F, the space,
  next line 0x85 and the no-break space 0xA0.
\<close>

definition is_space :: "char \<Rightarrow> bool" where
  "is_space c = (c \<in> set [CHR 0x09, CHR 0x0A, CHR 0x0B, CHR 0x0C, CHR 0x0D, CHR 0x1C,
     CHR 0x1D, CHR 0x1E, CHR 0x1F, CHR 0x20, CHR 0x85, CHR 0xA0])"

text \<open>
  \<^verbatim>\<open>s.split()\<close> with no argument: the maximal runs of characters that are not white space,
  in order; never an empty token. \<open>cur\<close> is the token being read.
\<close>

fun split_acc :: "string \<Rightarrow> string \<Rightarrow> string list" where
  "split_acc cur [] = (if cur = [] then [] else [cur])"
| "split_acc cur (c # cs) =
     (if is_space c then (if cur = [] then split_acc [] cs else cur # split_acc [] cs)
      else split_acc (cur @ [c]) cs)"

definition split :: "string \<Rightarrow> string list" where
  "split s = split_acc [] s"

text \<open>
  \<^verbatim>\<open>os.path.join(a, b)\<close> of \<^verbatim>\<open>posixpath\<close>: an absolute \<open>b\<close> replaces \<open>a\<close>; otherwise
  \<open>b\<close> is appended, after a separator unless \<open>a\<close> is empty or ends with one.
\<close>

definition endswith_sep :: "string \<Rightarrow> bool" where
  "endswith_sep a = (a \<noteq> [] \<and> last a = CHR ''/'')"

definition path_join :: "string \<Rightarrow> string \<Rightarrow> string" where
  "path_join a b =
     (if startswith ''/'' b then b
      else if a = [] \<or> endswith_sep a then a @ b
      else a @ ''/'' @ b)"

subsection \<open>Errors, the environment\<close>

datatype error =
    ValueError string
  | OSError
  | IndexError
  | AttributeError
  | UnboundLocalError
  | OverflowError

text \<open>
  A Python float that comes from outside (the command line, the log file): finite, and
  then taken as the rational it denotes, or an infinity, or not a number.
\<close>

datatype pyfloat = Finite rat | PosInf | NegInf | NaN

text \<open>
  What \<^verbatim>\<open>lammps_logfile.File(path).get('CPULeft', run_num=-1)\<close> does inside the
  \<^verbatim>\<open>try\<close> block of \<^verbatim>\<open>update_timings\<close>: it raises (no file, no parsable content), it
  returns \<^verbatim>\<open>None\<close> (no such column), or it returns the column, an array of floats
  that may be empty.
\<close>

datatype log_result = LogRaises | LogNone | LogData "pyfloat list"

text \<open>
  The environment. \<open>listdir p\<close> is \<^verbatim>\<open>os.listdir(p)\<close>, \<open>None\<close> when it raises; \<open>isdir\<close> is
  \<^verbatim>\<open>os.path.isdir\<close>; \<open>open_w p\<close> tells whether \<^verbatim>\<open>open(p, "w")\<close> succeeds and \<open>popen cmd\<close>
  whether \<^verbatim>\<open>subprocess.Popen(cmd, ...)\<close> does; \<open>thread_alive p k\<close> is what
  \<^verbatim>\<open>process.thread.is_alive()\<close> answers for the job of path \<open>p\<close> when the clock has been
  read \<open>k\<close> times, and \<open>log_get p k\<close> what the log reader does then on the log file
  \<open>p\<close>; \<open>clock k\<close> is reading number \<open>k\<close> of \<^verbatim>\<open>time.time()\<close>. \<open>process_running p k\<close>
  tells whether the external process launched for the job of path \<open>p\<close> is still running
  then; the program never asks: it holds the \<^verbatim>\<open>Popen\<close> object and calls neither
  \<^verbatim>\<open>wait\<close> nor \<^verbatim>\<open>poll\<close> on it.
\<close>

record env =
  listdir :: "string \<Rightarrow> string list option"
  isdir :: "string \<Rightarrow> bool"
  open_w :: "string \<Rightarrow> bool"
  popen :: "string list \<Rightarrow> bool"
  thread_alive :: "string \<Rightarrow> nat \<Rightarrow> bool"
  log_get :: "string \<Rightarrow> nat \<Rightarrow> log_result"
  clock :: "nat \<Rightarrow> rat"
  process_running :: "string \<Rightarrow> nat \<Rightarrow> bool"

subsection \<open>The classes \<^verbatim>\<open>Process\<close> and \<^verbatim>\<open>Qmighty\<close>\<close>

text \<open>
  \<open>command\<close> is \<open>None\<close> until \<^verbatim>\<open>set_command\<close> creates the attribute; \<open>complete\<close> is false
  until the run loop sets it.
\<close>

record process =
  path :: string
  name :: string
  outfile_name :: string
  elapsed_time :: rat
  remaining_time :: rat
  command :: "string list option"
  complete :: bool

definition Process_init :: "string \<Rightarrow> string \<Rightarrow> process" where
  "Process_init p n =
     \<lparr>path = p, name = n, outfile_name = ''qmighty-out.txt'', elapsed_time = 0,
      remaining_time = 0, command = None, complete = False\<rparr>"

definition set_command :: "process \<Rightarrow> string list \<Rightarrow> process" where
  "set_command self cmd = self\<lparr>command := Some cmd\<rparr>"

text \<open>One value of the dictionary \<^verbatim>\<open>self.queue\<close>: \<^verbatim>\<open>{"ID": procID, "Process": proc}\<close>.\<close>

record entry =
  ID :: nat
  Process :: process

text \<open>
  \<open>queue\<close> is the dictionary in insertion order, \<open>None\<close> until \<^verbatim>\<open>init_processes\<close> creates
  the attribute. \<^verbatim>\<open>init_processes\<close> creates \<open>num_procs\<close> with it, so \<open>queue = None\<close> also
  tells that \<open>num_procs\<close> is not there yet. \<open>id_currently_running\<close> is only written.
\<close>

record qmighty =
  root_dir :: string
  update_frequency :: pyfloat
  accepted_suffixes :: "string list"
  sim_dir_list :: "string list"
  queue :: "(nat \<times> entry) list option"
  num_procs :: nat
  id_currently_running :: nat

text \<open>
  The argument \<^verbatim>\<open>add_suffixes\<close> is iterated with \<^verbatim>\<open>for suffix in suffixes\<close>: a list
  gives its elements, a string gives its characters, each a string of length one.
\<close>

datatype suffix_arg = SuffixList "string list" | SuffixStr string

fun iterate :: "suffix_arg \<Rightarrow> string list" where
  "iterate (SuffixList xs) = xs"
| "iterate (SuffixStr s) = map (\<lambda>c. [c]) s"

fun add_suffix_loop :: "string list \<Rightarrow> string list \<Rightarrow> string list" where
  "add_suffix_loop acc [] = acc"
| "add_suffix_loop acc (suffix # rest) =
     add_suffix_loop (if suffix \<notin> set acc then acc @ [suffix] else acc) rest"

definition add_suffix :: "qmighty \<Rightarrow> suffix_arg \<Rightarrow> qmighty" where
  "add_suffix self suffixes =
     self\<lparr>accepted_suffixes := add_suffix_loop (accepted_suffixes self) (iterate suffixes)\<rparr>"

text \<open>
  \<^verbatim>\<open>Qmighty.__init__\<close>. With no \<^verbatim>\<open>sim_dir_list\<close> the entries of \<open>root_dir\<close> that are
  directories are taken, in the order \<^verbatim>\<open>os.listdir\<close> gives them.
\<close>

definition Qmighty_init ::
  "env \<Rightarrow> string \<Rightarrow> string list option \<Rightarrow> pyfloat \<Rightarrow> suffix_arg option
   \<Rightarrow> error + qmighty" where
  "Qmighty_init e rootdir sim_dirs upd add_suffixes =
     (let self0 = \<lparr>root_dir = rootdir, update_frequency = upd,
                    accepted_suffixes = [''.lmp'', ''.in''], sim_dir_list = [],
                    queue = None, num_procs = 0, id_currently_running = 0\<rparr>;
          self1 = (case add_suffixes of None \<Rightarrow> self0 | Some sf \<Rightarrow> add_suffix self0 sf)
      in case sim_dirs of
           Some ds \<Rightarrow> Inr (self1\<lparr>sim_dir_list := ds\<rparr>)
         | None \<Rightarrow>
            (case listdir e rootdir of
               None \<Rightarrow> Inl OSError
             | Some dirs \<Rightarrow>
                 Inr (self1\<lparr>sim_dir_list := filter (\<lambda>d. isdir e (path_join rootdir d)) dirs\<rparr>)))"

text \<open>\<^verbatim>\<open>sanity_check\<close>: two nested loops that return at the first hit.\<close>

fun any_suffix_in :: "string list \<Rightarrow> string \<Rightarrow> bool" where
  "any_suffix_in [] filename = False"
| "any_suffix_in (suffix # rest) filename =
     (if str_in suffix filename then True else any_suffix_in rest filename)"

fun sanity_loop :: "string list \<Rightarrow> string list \<Rightarrow> bool" where
  "sanity_loop sufs [] = False"
| "sanity_loop sufs (filename # rest) =
     (if any_suffix_in sufs filename then True else sanity_loop sufs rest)"

definition sanity_check :: "env \<Rightarrow> qmighty \<Rightarrow> string \<Rightarrow> error + bool" where
  "sanity_check e self sim_path =
     (case listdir e sim_path of
        None \<Rightarrow> Inl OSError
      | Some filenames \<Rightarrow> Inr (sanity_loop (accepted_suffixes self) filenames))"

text \<open>
  The two command lines of \<^verbatim>\<open>init_processes\<close>, each an f-string cut at white space.
  The two \<^verbatim>\<open>if\<close>s are tried in turn; with neither, \<^verbatim>\<open>command\<close> is unbound.
\<close>

definition cpu_command :: "string \<Rightarrow> string \<Rightarrow> string list" where
  "cpu_command sim_path input_filename =
     split (''mpirun -np 4 -wdir '' @ sim_path @ '' lmp -in '' @ input_filename)"

definition gpu_command :: "string \<Rightarrow> string \<Rightarrow> string list" where
  "gpu_command sim_path input_filename =
     split (''mpirun -n 1 -wdir '' @ sim_path
            @ '' lmp -k on g 1 -sf kk -pk kokkos newton on neigh half -in '' @ input_filename)"

definition build_command :: "string \<Rightarrow> string \<Rightarrow> string \<Rightarrow> string list option" where
  "build_command computer sim_path input_filename =
     (let c0 = None;
          c1 = (if computer = ''CPU'' then Some (cpu_command sim_path input_filename) else c0);
          c2 = (if computer = ''GPU'' then Some (gpu_command sim_path input_filename) else c1)
      in c2)"

text \<open>
  The loop of \<^verbatim>\<open>init_processes\<close> over \<open>sim_dir_list\<close>; its state is the dictionary, the
  next id and the count. \<^verbatim>\<open>self.queue[procID] = ...\<close> is \<open>AList.update\<close>: a new key goes
  last, an old key keeps its place. An exception of \<^verbatim>\<open>os.listdir\<close> leaves the method
  with the error alone: the entry point does not catch it, so the queue built so far is
  never read.
\<close>

fun init_loop ::
  "env \<Rightarrow> qmighty \<Rightarrow> string \<Rightarrow> string \<Rightarrow> string list \<Rightarrow>
   (nat \<times> entry) list \<times> nat \<times> nat \<Rightarrow> error + ((nat \<times> entry) list \<times> nat \<times> nat)" where
  "init_loop e self computer input_filename [] st = Inr st"
| "init_loop e self computer input_filename (sim_dir # rest) (qu, procID, n) =
     (let sim_path = path_join (root_dir self) sim_dir in
      case sanity_check e self sim_path of
        Inl err \<Rightarrow> Inl err
      | Inr False \<Rightarrow> init_loop e self computer input_filename rest (qu, procID, n)
      | Inr True \<Rightarrow>
          (case build_command computer sim_path input_filename of
             None \<Rightarrow> Inl UnboundLocalError
           | Some cmd \<Rightarrow>
               let proc = set_command (Process_init sim_path sim_dir) cmd in
               init_loop e self computer input_filename rest
                 (AList.update procID \<lparr>ID = procID, Process = proc\<rparr> qu, procID + 1, n + 1)))"

definition computer_message :: "string \<Rightarrow> string" where
  "computer_message computer =
     ''computer='' @ computer @ '', not '' @ [CHR 0x27] @ ''CPU'' @ [CHR 0x27]
       @ '' or '' @ [CHR 0x27] @ ''GPU'' @ [CHR 0x27]"

definition init_processes :: "env \<Rightarrow> qmighty \<Rightarrow> string \<Rightarrow> string \<Rightarrow> error + qmighty" where
  "init_processes e self computer input_filename =
     (if computer \<noteq> ''CPU'' \<and> computer \<noteq> ''GPU'' then Inl (ValueError (computer_message computer))
      else case init_loop e self computer input_filename (sim_dir_list self) ([], 100, 0) of
             Inl err \<Rightarrow> Inl err
           | Inr (qu, procID, n) \<Rightarrow> Inr (self\<lparr>queue := Some qu, num_procs := n\<rparr>))"

subsection \<open>Time, the terminal and the launches\<close>

text \<open>
  What the program does to the outside, in order. \<open>ClearScreen\<close> and \<open>ClearLines n\<close> are
  the two forms of \<^verbatim>\<open>clear_n_lines\<close>; \<open>PrintRow\<close> carries the id, the name and the two
  durations in whole seconds (the text that the f-string makes of them is not modelled);
  \<open>OpenOutfile\<close> and \<open>Popen\<close> are the two steps of a launch; \<open>PrintNoJobs\<close> and
  \<open>PrintSummary\<close> are the two closing messages. \<^verbatim>\<open>print\<close> itself is taken to succeed.
  The lines that the error-draining thread prints as they arrive are not part of the
  trace.
\<close>

datatype event =
    ClearScreen
  | ClearLines nat
  | PrintHeader
  | PrintRow nat string int int
  | OpenOutfile string
  | Popen "string list"
  | Sleep rat
  | PrintNoJobs
  | PrintSummary nat rat

text \<open>The mutable outside: how often the clock has been read, and the events so far.\<close>

record world =
  ticks :: nat
  trace :: "event list"

text \<open>
  How a run ends: it returns, with the object and the world as they are then, or it leaves
  with an exception. A run that never ends has no outcome: the functions below return
  \<open>None\<close> for it.
\<close>

datatype outcome = Done qmighty world | Raise error world

definition emit :: "event list \<Rightarrow> world \<Rightarrow> world" where
  "emit evs w = w\<lparr>trace := trace w @ evs\<rparr>"

definition time_time :: "env \<Rightarrow> world \<Rightarrow> rat \<times> world" where
  "time_time e w = (clock e (ticks w), w\<lparr>ticks := ticks w + 1\<rparr>)"

text \<open>
  \<^verbatim>\<open>time.sleep(secs)\<close> first turns the length into whole nanoseconds of 64 bits, rounding
  away from zero: not a number is a \<^verbatim>\<open>ValueError\<close>, a length out of that range (an
  infinity too) an \<^verbatim>\<open>OverflowError\<close>. Then it refuses a negative length.
\<close>

definition sleep_nanoseconds :: "rat \<Rightarrow> int" where
  "sleep_nanoseconds r = (if 0 \<le> r then \<lceil>r * 10 ^ 9\<rceil> else \<lfloor>r * 10 ^ 9\<rfloor>)"

definition time_sleep :: "pyfloat \<Rightarrow> world \<Rightarrow> (error \<times> world) + world" where
  "time_sleep secs w =
     (case secs of
        NaN \<Rightarrow> Inl (ValueError ''Invalid value NaN (not a number)'', w)
      | PosInf \<Rightarrow> Inl (OverflowError, w)
      | NegInf \<Rightarrow> Inl (OverflowError, w)
      | Finite r \<Rightarrow>
          if sleep_nanoseconds r < - (2 ^ 63) \<or> 2 ^ 63 \<le> sleep_nanoseconds r
          then Inl (OverflowError, w)
          else if r < 0 then Inl (ValueError ''sleep length must be non-negative'', w)
          else Inr (emit [Sleep r] w))"

text \<open>\<^verbatim>\<open>round(x)\<close> with one argument: to the nearest integer, a tie to the even one.\<close>

definition py_round :: "rat \<Rightarrow> int" where
  "py_round x =
     (let f = \<lfloor>x\<rfloor>; d = x - of_int f
      in if d < 1 / 2 then f else if 1 / 2 < d then f + 1 else if even f then f else f + 1)"

text \<open>
  \<^verbatim>\<open>round\<close> of a float that may not be finite: not a number cannot become an integer,
  nor can an infinity.
\<close>

definition round_float :: "pyfloat \<Rightarrow> error + int" where
  "round_float x =
     (case x of
        Finite r \<Rightarrow> Inr (py_round r)
      | NaN \<Rightarrow> Inl (ValueError ''cannot convert float NaN to integer'')
      | PosInf \<Rightarrow> Inl OverflowError
      | NegInf \<Rightarrow> Inl OverflowError)"

text \<open>
  \<^verbatim>\<open>datetime.timedelta(seconds=s)\<close> for an integer \<open>s\<close>: the seconds are carried into
  days, and more than 999999999 days either way is an \<^verbatim>\<open>OverflowError\<close>.
\<close>

definition timedelta_ok :: "int \<Rightarrow> bool" where
  "timedelta_ok s = (- 999999999 \<le> s div 86400 \<and> s div 86400 \<le> 999999999)"

definition timedelta :: "int \<Rightarrow> error + int" where
  "timedelta s = (if timedelta_ok s then Inr s else Inl OverflowError)"

definition clear_n_lines :: "nat option \<Rightarrow> world \<Rightarrow> world" where
  "clear_n_lines n w = (case n of None \<Rightarrow> emit [ClearScreen] w | Some k \<Rightarrow> emit [ClearLines k] w)"

subsection \<open>\<^verbatim>\<open>Process.spawn_thread\<close> and \<^verbatim>\<open>Process.update_timings\<close>\<close>

definition outfile :: "process \<Rightarrow> string" where
  "outfile self = path_join (path self) (outfile_name self)"

text \<open>
  \<^verbatim>\<open>spawn_thread\<close> opens the log file for writing, then starts the process. Neither call
  is guarded: a failure of either leaves the method as an exception.
\<close>

definition spawn_thread :: "env \<Rightarrow> process \<Rightarrow> world \<Rightarrow> (error \<times> world) + world" where
  "spawn_thread e self w =
     (if \<not> open_w e (outfile self) then Inl (OSError, w)
      else let w1 = emit [OpenOutfile (outfile self)] w in
        case command self of
          None \<Rightarrow> Inl (AttributeError, w1)
        | Some cmd \<Rightarrow>
            if \<not> popen e cmd then Inl (OSError, w1) else Inr (emit [Popen cmd] w1))"

text \<open>
  \<^verbatim>\<open>update_timings\<close>. Only the two calls of the log reader stand inside \<^verbatim>\<open>try\<close>; the
  index \<^verbatim>\<open>remaining_time[-1]\<close> and \<^verbatim>\<open>round\<close> stand after it, the index first. The log
  reader is asked after the clock has been read.
\<close>

definition update_timings ::
  "env \<Rightarrow> process \<Rightarrow> rat \<Rightarrow> world \<Rightarrow> (error \<times> world) + (process \<times> world)" where
  "update_timings e self t0 w =
     (let (t1, w1) = time_time e w;
          self1 = self\<lparr>elapsed_time := t1 - t0\<rparr>;
          remaining_time' =
            (case log_get e (outfile self1) (ticks w1) of
               LogRaises \<Rightarrow> None
             | LogNone \<Rightarrow> None
             | LogData xs \<Rightarrow> Some xs)
      in case remaining_time' of
           None \<Rightarrow> Inr (self1\<lparr>remaining_time := 0\<rparr>, w1)
         | Some xs \<Rightarrow>
             if xs = [] then Inl (IndexError, w1)
             else (case round_float (last xs) of
                     Inl err \<Rightarrow> Inl (err, w1)
                   | Inr n \<Rightarrow> Inr (self1\<lparr>remaining_time := of_int n\<rparr>, w1)))"

subsection \<open>\<^verbatim>\<open>Qmighty.print_progress\<close> and \<^verbatim>\<open>Qmighty.run_process_loop\<close>\<close>

text \<open>
  The rows of \<^verbatim>\<open>print_progress\<close>, one per entry of the queue: the remaining time is
  made a \<^verbatim>\<open>timedelta\<close> first, then the elapsed time, then the row is printed. A duration
  out of range ends the method there, the rows before it printed.
\<close>

fun print_rows :: "(nat \<times> entry) list \<Rightarrow> world \<Rightarrow> (error \<times> world) + world" where
  "print_rows [] w = Inr w"
| "print_rows (kv # rest) w =
     (let process = Process (snd kv) in
      case timedelta (py_round (remaining_time process)) of
        Inl err \<Rightarrow> Inl (err, w)
      | Inr remaining \<Rightarrow>
          (case timedelta (py_round (elapsed_time process)) of
             Inl err \<Rightarrow> Inl (err, w)
           | Inr elapsed \<Rightarrow>
               print_rows rest (emit [PrintRow (fst kv) (name process) elapsed remaining] w)))"

text \<open>
  \<^verbatim>\<open>print_progress\<close> reads \<open>num_procs\<close> before it prints anything: on an object that
  \<^verbatim>\<open>init_processes\<close> has not filled it raises at once.
\<close>

definition print_progress :: "qmighty \<Rightarrow> world \<Rightarrow> (error \<times> world) + world" where
  "print_progress self w =
     (case queue self of
        None \<Rightarrow> Inl (AttributeError, w)
      | Some qu \<Rightarrow>
          let w1 = clear_n_lines (Some (num_procs self + 5)) w;
              w2 = emit [PrintHeader] w1
          in print_rows qu w2)"

text \<open>
  The run loop holds a job's \<^verbatim>\<open>Process\<close> object in a local variable while the dictionary
  holds the same object: a write through the variable is seen by \<^verbatim>\<open>print_progress\<close>.
  \<open>update_process pid f\<close> is that write, on the entry of key \<open>pid\<close>.
\<close>

definition update_process :: "nat \<Rightarrow> (process \<Rightarrow> process) \<Rightarrow> qmighty \<Rightarrow> qmighty" where
  "update_process pid f self =
     self\<lparr>queue :=
       map_option (map (\<lambda>kv. if fst kv = pid then (fst kv, (snd kv)\<lparr>Process := f (Process (snd kv))\<rparr>)
                              else kv)) (queue self)\<rparr>"

text \<open>
  The loop \<^verbatim>\<open>while process.thread.is_alive()\<close>. Each turn asks the environment whether
  the thread is alive, then samples, redraws and sleeps; a sample reads the clock once, so
  every turn asks at a later reading. The loop ends when the answer is false or a step
  raises; when neither happens it runs for ever, and the function has no value.
\<close>

partial_function (option) sample_loop ::
  "env \<Rightarrow> nat \<Rightarrow> rat \<Rightarrow> process \<Rightarrow> qmighty \<Rightarrow> world \<Rightarrow> outcome option" where
  "sample_loop e pid t0 process self w =
     (if \<not> thread_alive e (path process) (ticks w) then Some (Done self w)
      else case update_timings e process t0 w of
             Inl (err, w') \<Rightarrow> Some (Raise err w')
           | Inr (process', w1) \<Rightarrow>
               let self1 = update_process pid (\<lambda>_. process') self in
               case print_progress self1 w1 of
                 Inl (err, w') \<Rightarrow> Some (Raise err w')
               | Inr w2 \<Rightarrow>
                   (case time_sleep (update_frequency self1) w2 of
                      Inl (err, w') \<Rightarrow> Some (Raise err w')
                    | Inr w3 \<Rightarrow> sample_loop e pid t0 process' self1 w3))"

text \<open>The equation of the loop is the rule its values are computed with.\<close>

declare sample_loop.simps [code]

text \<open>
  One turn of \<^verbatim>\<open>for current_proc_ID, value in self.queue.items()\<close>. The launch is not
  guarded. A thread that has ended stays ended, so the \<^verbatim>\<open>join\<close> after the loop is never
  reached. The entry of a job is not written before its turn, so the entry as it was at
  the start of the iteration is the one the loop reads.
\<close>

definition run_job :: "env \<Rightarrow> nat \<times> entry \<Rightarrow> qmighty \<Rightarrow> world \<Rightarrow> outcome option" where
  "run_job e item self w =
     (let current_proc_ID = fst item;
          self1 = self\<lparr>id_currently_running := current_proc_ID\<rparr>;
          process = Process (snd item)
      in case spawn_thread e process w of
           Inl (err, w') \<Rightarrow> Some (Raise err w')
         | Inr w1 \<Rightarrow>
             let (t0_proc, w2) = time_time e w1 in
             case sample_loop e current_proc_ID t0_proc process self1 w2 of
               None \<Rightarrow> None
             | Some (Done self2 w3) \<Rightarrow>
                 Some (Done (update_process current_proc_ID (\<lambda>p. p\<lparr>complete := True\<rparr>) self2) w3)
             | Some (Raise err w') \<Rightarrow> Some (Raise err w'))"

fun run_jobs :: "env \<Rightarrow> (nat \<times> entry) list \<Rightarrow> qmighty \<Rightarrow> world \<Rightarrow> outcome option" where
  "run_jobs e [] self w = Some (Done self w)"
| "run_jobs e (item # rest) self w =
     (case run_job e item self w of
        None \<Rightarrow> None
      | Some (Done self' w') \<Rightarrow> run_jobs e rest self' w'
      | Some (Raise err w') \<Rightarrow> Some (Raise err w'))"

definition run_process_loop :: "env \<Rightarrow> qmighty \<Rightarrow> world \<Rightarrow> outcome option" where
  "run_process_loop e self w =
     (let self1 = self\<lparr>id_currently_running := 0\<rparr>;
          w1 = clear_n_lines None w;
          (t0_main, w2) = time_time e w1
      in case queue self1 of
           None \<Rightarrow> Some (Raise AttributeError w2)
         | Some qu \<Rightarrow>
             (case run_jobs e qu self1 w2 of
                None \<Rightarrow> None
              | Some (Done self2 w3) \<Rightarrow>
                  let (t, w4) = time_time e w3;
                      tfinal_main = t - t0_main
                  in Some (Done self2
                       (emit [if num_procs self2 = 0 then PrintNoJobs
                              else PrintSummary (num_procs self2) tfinal_main] w4))
              | Some (Raise err w') \<Rightarrow> Some (Raise err w')))"

text \<open>
  The entry point after the arguments are parsed: \<^verbatim>\<open>input_format\<close> is passed twice, as
  the constructor's \<^verbatim>\<open>add_suffixes\<close> and as the input filename.
\<close>

definition main ::
  "env \<Rightarrow> string \<Rightarrow> string list option \<Rightarrow> string \<Rightarrow> string \<Rightarrow> pyfloat \<Rightarrow> world
   \<Rightarrow> outcome option" where
  "main e root_dir' simulation_dir input_format computer upd w =
     (case Qmighty_init e root_dir' simulation_dir upd (Some (SuffixStr input_format)) of
        Inl err \<Rightarrow> Some (Raise err w)
      | Inr queue' \<Rightarrow>
          (case init_processes e queue' computer input_format of
             Inl err \<Rightarrow> Some (Raise err w)
           | Inr queue'' \<Rightarrow> run_process_loop e queue'' w))"

subsection \<open>Reading a trace\<close>

text \<open>The commands launched, in order, and the closing messages printed.\<close>

fun is_launch :: "event \<Rightarrow> bool" where
  "is_launch (Popen cmd) = True"
| "is_launch ev = False"

fun is_report :: "event \<Rightarrow> bool" where
  "is_report PrintNoJobs = True"
| "is_report (PrintSummary n t) = True"
| "is_report ev = False"

definition launches :: "world \<Rightarrow> event list" where
  "launches w = filter is_launch (trace w)"

definition reports :: "world \<Rightarrow> event list" where
  "reports w = filter is_report (trace w)"

text \<open>The launches of a list of jobs, had each of them been started.\<close>

definition launch_events :: "(nat \<times> entry) list \<Rightarrow> event list" where
  "launch_events items =
     concat (map (\<lambda>item. case command (Process (snd item)) of
                            None \<Rightarrow> []
                          | Some cmd \<Rightarrow> [Popen cmd]) items)"



definition printable :: "process \<Rightarrow> bool" where
  "printable p =
     (timedelta_ok (py_round (remaining_time p)) \<and> timedelta_ok (py_round (elapsed_time p)))"


text \<open>The queue is there and every process of it can be shown.\<close>

definition showable :: "qmighty \<Rightarrow> bool" where
  "showable self =
     (case queue self of
        None \<Rightarrow> False
      | Some qu \<Rightarrow> list_all (\<lambda>kv. printable (Process (snd kv))) qu)"


subsection \<open>Example file systems\<close>

text \<open>
  A root directory \<^verbatim>\<open>sims\<close> with three job directories and a plain file. \<^verbatim>\<open>sims/c\<close>
  holds no file ending in an accepted suffix, but the name \<^verbatim>\<open>main.input\<close> contains
  \<^verbatim>\<open>.in\<close>. Every launch succeeds; the thread of \<^verbatim>\<open>sims/a\<close> is alive until the third
  reading of the clock, that of \<^verbatim>\<open>sims/c\<close> until the sixth, and each process runs as long
  as its thread; the log holds no column; the clock advances by a second at each reading.
\<close>

definition ex_listdir :: "string \<Rightarrow> string list option" where
  "ex_listdir p =
     (if p = ''sims'' then Some [''a'', ''b'', ''c'', ''README'']
      else if p = ''sims/a'' then Some [''run.lmp'']
      else if p = ''sims/b'' then Some [''notes.txt'']
      else if p = ''sims/c'' then Some [''log'', ''main.input'']
      else None)"

definition ex_env :: env where
  "ex_env =
     \<lparr>listdir = ex_listdir,
      isdir = (\<lambda>p. p \<in> set [''sims/a'', ''sims/b'', ''sims/c'']),
      open_w = (\<lambda>p. True),
      popen = (\<lambda>cmd. True),
      thread_alive = (\<lambda>p k. if p = ''sims/a'' then k < 3 else if p = ''sims/c'' then k < 6 else False),
      log_get = (\<lambda>p k. LogNone),
      clock = (\<lambda>k. of_nat k),
      process_running =
        (\<lambda>p k. if p = ''sims/a'' then k < 3 else if p = ''sims/c'' then k < 6 else False)\<rparr>"

definition ex_self :: qmighty where
  "ex_self =
     \<lparr>root_dir = ''sims'', update_frequency = Finite (1 / 2), accepted_suffixes = [''.lmp'', ''.in''],
      sim_dir_list = [''a'', ''b'', ''c''], queue = None, num_procs = 0,
      id_currently_running = 0\<rparr>"

text \<open>A job directory whose name contains a space.\<close>

definition ws_env :: env where
  "ws_env = ex_env\<lparr>listdir := (\<lambda>p. if p = ''sims/my sim'' then Some [''run.lmp''] else None)\<rparr>"

definition ws_self :: qmighty where
  "ws_self = ex_self\<lparr>sim_dir_list := [''my sim'']\<rparr>"

text \<open>
  Two more environments: the log reader returns the column \<^verbatim>\<open>CPULeft\<close> with no row
  yet; the launcher is not installed. \<open>w0\<close> is the world before the program starts.
\<close>

definition empty_log_env :: env where
  "empty_log_env = ex_env\<lparr>log_get := (\<lambda>p k. LogData [])\<rparr>"


text \<open>The queue that \<^verbatim>\<open>init_processes('CPU', 'run.lmp')\<close> builds in the example.\<close>

definition ex_jobs :: "(nat \<times> entry) list" where
  "ex_jobs =
     [(100, \<lparr>ID = 100, Process = set_command (Process_init ''sims/a'' ''a'')
              [''mpirun'', ''-np'', ''4'', ''-wdir'', ''sims/a'', ''lmp'', ''-in'', ''run.lmp'']\<rparr>),
      (101, \<lparr>ID = 101, Process = set_command (Process_init ''sims/c'' ''c'')
              [''mpirun'', ''-np'', ''4'', ''-wdir'', ''sims/c'', ''lmp'', ''-in'', ''run.lmp'']\<rparr>)]"




definition w0 :: world where
  "w0 = \<lparr>ticks = 0, trace = []\<rparr>"

section \<open>Properties\<close>

lemma startswith_iff: "startswith p s \<longleftrightarrow> (\<exists>r. s = p @ r)"
  by (induction p s rule: startswith.induct) auto

lemma str_in_iff: "str_in sub s \<longleftrightarrow> (\<exists>pre post. s = pre @ sub @ post)"
proof (induction s)
  case Nil
  then show ?case by auto
next
  case (Cons c cs)
  show ?case
  proof
    assume "str_in sub (c # cs)"
    then consider "startswith sub (c # cs)" | "str_in sub cs" by auto
    then show "\<exists>pre post. c # cs = pre @ sub @ post"
    proof cases
      case 1
      then obtain r where "c # cs = sub @ r" by (auto simp: startswith_iff)
      then have "c # cs = [] @ sub @ r" by simp
      then show ?thesis by blast
    next
      case 2
      then obtain pre post where "cs = pre @ sub @ post" using Cons.IH by auto
      then have "c # cs = (c # pre) @ sub @ post" by simp
      then show ?thesis by blast
    qed
  next
    assume "\<exists>pre post. c # cs = pre @ sub @ post"
    then obtain pre post where eq: "c # cs = pre @ sub @ post" by auto
    show "str_in sub (c # cs)"
    proof (cases pre)
      case Nil
      with eq have "startswith sub (c # cs)" by (auto simp: startswith_iff)
      then show ?thesis by simp
    next
      case (Cons a pre')
      with eq have "cs = pre' @ sub @ post" by simp
      then have "str_in sub cs" using Cons.IH by auto
      then show ?thesis by simp
    qed
  qed
qed

lemma any_suffix_in_iff: "any_suffix_in sufs f \<longleftrightarrow> (\<exists>s \<in> set sufs. str_in s f)"
  by (induction sufs) auto

lemma sanity_loop_iff:
  "sanity_loop sufs fs \<longleftrightarrow> (\<exists>f \<in> set fs. \<exists>s \<in> set sufs. str_in s f)"
  by (induction fs) (auto simp: any_suffix_in_iff)

text \<open>
  C1. For a directory \<open>d\<close> (one that \<^verbatim>\<open>os.listdir\<close> lists), \<^verbatim>\<open>sanity_check(d)\<close> returns,
  and returns true if and only if some filename listed in \<open>d\<close> contains some accepted
  suffix as a substring: the suffix may stand anywhere in the name, not only at its end.
\<close>

theorem sanity_check_substring:
  assumes "listdir e d = Some filenames"
  shows "sanity_check e self d =
           Inr (\<exists>f \<in> set filenames. \<exists>s \<in> set (accepted_suffixes self).
                  \<exists>pre post. f = pre @ s @ post)"
  using assms by (simp add: sanity_check_def sanity_loop_iff str_in_iff)

theorem sanity_check_substring_witness:
  "listdir ex_env ''sims/c'' = Some [''log'', ''main.input'']
   \<and> sanity_check ex_env ex_self ''sims/c'' = Inr True
   \<and> (\<exists>f \<in> set [''log'', ''main.input'']. \<exists>s \<in> set (accepted_suffixes ex_self).
          \<exists>pre post. f = pre @ s @ post)"
proof -
  have h: "listdir ex_env ''sims/c'' = Some [''log'', ''main.input'']"
    by (simp add: ex_env_def ex_listdir_def)
  have v: "sanity_check ex_env ex_self ''sims/c'' = Inr True"
    by (simp add: sanity_check_def ex_env_def ex_listdir_def ex_self_def)
  show ?thesis
    using h v sanity_check_substring [OF h, of ex_self] by simp
qed

subsection \<open>The accepted suffixes\<close>

lemma remdups_snoc: "remdups (ys @ [x]) = remdups (filter (\<lambda>y. y \<noteq> x) ys) @ [x]"
  by (induction ys) auto

text \<open>
  \<^verbatim>\<open>add_suffix\<close> appends, in order, the first occurrence of every new element
  (\<open>remdups\<close> keeps last occurrences, hence the two reversals).
\<close>

lemma add_suffix_loop_eq:
  "add_suffix_loop acc xs = acc @ rev (remdups (rev (filter (\<lambda>x. x \<notin> set acc) xs)))"
proof (induction xs arbitrary: acc)
  case Nil
  then show ?case by simp
next
  case (Cons x xs)
  show ?case
  proof (cases "x \<in> set acc")
    case True
    then show ?thesis using Cons.IH [of acc] by simp
  next
    case False
    have "filter (\<lambda>y. y \<notin> set (acc @ [x])) xs
          = filter (\<lambda>y. y \<noteq> x) (filter (\<lambda>y. y \<notin> set acc) xs)"
      by (induction xs) auto
    then show ?thesis
      using False Cons.IH [of "acc @ [x]"] by (simp add: remdups_snoc rev_filter)
  qed
qed

lemma set_add_suffix_loop: "set (add_suffix_loop acc xs) = set acc \<union> set xs"
  by (induction xs arbitrary: acc) auto

lemma str_in_char: "c \<in> set f \<Longrightarrow> str_in [c] f"
  by (induction f) auto

lemma remdups_singletons: "remdups (map (\<lambda>c. [c]) xs) = map (\<lambda>c. [c]) (remdups xs)"
  by (induction xs) auto

text \<open>
  C10. When the constructor's \<^verbatim>\<open>add_suffixes\<close> is a string \<open>s\<close> (the entry point passes
  \<^verbatim>\<open>input_format\<close> there), \<^verbatim>\<open>add_suffix\<close> walks its characters and appends each one
  not yet present as an accepted suffix of length one, after the two built-in suffixes and
  in the order of first occurrence. From then on \<^verbatim>\<open>sanity_check\<close> accepts every directory
  with a filename that contains any character of \<open>s\<close>.
\<close>

theorem string_suffix_argument:
  assumes "Qmighty_init e rootdir sim_dirs upd (Some (SuffixStr s)) = Inr self"
  shows "accepted_suffixes self
           = [''.lmp'', ''.in''] @ map (\<lambda>c. [c]) (rev (remdups (rev s)))
         \<and> (\<forall>c \<in> set s. \<forall>d filenames. \<forall>f \<in> set filenames.
               listdir e d = Some filenames \<and> c \<in> set f \<longrightarrow> sanity_check e self d = Inr True)"
proof -
  have acc: "accepted_suffixes self = add_suffix_loop [''.lmp'', ''.in''] (map (\<lambda>c. [c]) s)"
    using assms
    by (auto simp: Qmighty_init_def add_suffix_def Let_def split: option.splits)
  have "filter (\<lambda>x. x \<notin> set [''.lmp'', ''.in'']) (map (\<lambda>c. [c]) s) = map (\<lambda>c. [c]) s"
    by (induction s) auto
  moreover have "remdups (rev (map (\<lambda>c. [c]) s)) = map (\<lambda>c. [c]) (remdups (rev s))"
    by (simp add: rev_map remdups_singletons)
  ultimately have 1: "accepted_suffixes self
           = [''.lmp'', ''.in''] @ map (\<lambda>c. [c]) (rev (remdups (rev s)))"
    using acc by (simp add: add_suffix_loop_eq rev_map)
  have 2: "sanity_check e self d = Inr True"
    if "c \<in> set s" "f \<in> set filenames" "listdir e d = Some filenames" "c \<in> set f"
    for c d filenames f
  proof -
    have "[c] \<in> set (accepted_suffixes self)"
      using that(1) acc by (simp add: set_add_suffix_loop)
    moreover have "str_in [c] f" using that(4) by (rule str_in_char)
    ultimately show ?thesis
      using that(2,3) by (auto simp: sanity_check_def sanity_loop_iff)
  qed
  show ?thesis using 1 2 by blast
qed


theorem string_suffix_argument_witness:
  "Qmighty_init ex_env ''sims'' None (Finite 1) (Some (SuffixStr ''run.lmp''))
     = Inr (ex_self\<lparr>update_frequency := Finite 1, accepted_suffixes :=
              [''.lmp'', ''.in'', ''r'', ''u'', ''n'', ''.'', ''l'', ''m'', ''p'']\<rparr>)
   \<and> listdir ex_env ''sims/b'' = Some [''notes.txt'']
   \<and> CHR ''n'' \<in> set ''run.lmp'' \<and> CHR ''n'' \<in> set ''notes.txt''
   \<and> sanity_check ex_env ex_self ''sims/b'' = Inr False
   \<and> sanity_check ex_env
         (ex_self\<lparr>update_frequency := Finite 1, accepted_suffixes :=
            [''.lmp'', ''.in'', ''r'', ''u'', ''n'', ''.'', ''l'', ''m'', ''p'']\<rparr>) ''sims/b''
       = Inr True"
proof -
  let ?q = "ex_self\<lparr>update_frequency := Finite 1, accepted_suffixes :=
              [''.lmp'', ''.in'', ''r'', ''u'', ''n'', ''.'', ''l'', ''m'', ''p'']\<rparr>"
  have i: "Qmighty_init ex_env ''sims'' None (Finite 1) (Some (SuffixStr ''run.lmp'')) = Inr ?q"
    by (simp add: Qmighty_init_def ex_env_def ex_listdir_def ex_self_def add_suffix_def
        path_join_def endswith_sep_def)
  have l: "listdir ex_env ''sims/b'' = Some [''notes.txt'']"
    by (simp add: ex_env_def ex_listdir_def)
  have f: "sanity_check ex_env ex_self ''sims/b'' = Inr False"
    by (simp add: sanity_check_def ex_env_def ex_listdir_def ex_self_def)
  have "sanity_check ex_env ?q ''sims/b'' = Inr True"
    using string_suffix_argument [OF i] l by simp
  then show ?thesis using i l f by simp
qed

subsection \<open>The loop of \<^verbatim>\<open>init_processes\<close>\<close>

lemma update_fresh: "k \<notin> fst ` set al \<Longrightarrow> AList.update k v al = al @ [(k, v)]"
  by (induction al) auto

lemma build_command_valid:
  "computer = ''CPU'' \<or> computer = ''GPU'' \<Longrightarrow>
   build_command computer p i =
     Some (if computer = ''GPU'' then gpu_command p i else cpu_command p i)"
  by (auto simp: build_command_def)


lemma init_loop_props:
  assumes "computer = ''CPU'' \<or> computer = ''GPU''"
    and "\<forall>d \<in> set ds. listdir e (path_join (root_dir self) d) \<noteq> None"
    and "map fst qu = [100 ..< 100 + length qu]"
  shows "\<exists>qu'. init_loop e self computer inp ds (qu, 100 + length qu, length qu)
                 = Inr (qu', 100 + length qu', length qu')
           \<and> map fst qu' = [100 ..< 100 + length qu']
           \<and> map (\<lambda>x. name (Process (snd x))) qu'
               = map (\<lambda>x. name (Process (snd x))) qu
                 @ filter (\<lambda>d. sanity_check e self (path_join (root_dir self) d) = Inr True) ds
           \<and> map (\<lambda>x. ID (snd x)) qu' = map (\<lambda>x. ID (snd x)) qu @ [100 + length qu ..< 100 + length qu']"
  using assms
proof (induction ds arbitrary: qu)
  case Nil
  then show ?case by simp
next
  case (Cons d ds)
  let ?p = "path_join (root_dir self) d"
  from Cons.prems(2) obtain fs where fs: "listdir e ?p = Some fs" by auto
  show ?case
  proof (cases "sanity_loop (accepted_suffixes self) fs")
    case False
    then have sc: "sanity_check e self ?p = Inr False" using fs by (simp add: sanity_check_def)
    from Cons.IH [of qu] Cons.prems obtain qu' where
      "init_loop e self computer inp ds (qu, 100 + length qu, length qu)
                 = Inr (qu', 100 + length qu', length qu')
           \<and> map fst qu' = [100 ..< 100 + length qu']
           \<and> map (\<lambda>x. name (Process (snd x))) qu'
               = map (\<lambda>x. name (Process (snd x))) qu
                 @ filter (\<lambda>d. sanity_check e self (path_join (root_dir self) d) = Inr True) ds
           \<and> map (\<lambda>x. ID (snd x)) qu' = map (\<lambda>x. ID (snd x)) qu @ [100 + length qu ..< 100 + length qu']"
      by auto
    then show ?thesis using sc by (intro exI [of _ qu']) simp
  next
    case True
    then have sc: "sanity_check e self ?p = Inr True" using fs by (simp add: sanity_check_def)
    let ?cmd = "if computer = ''GPU'' then gpu_command ?p inp else cpu_command ?p inp"
    let ?ent = "\<lparr>ID = 100 + length qu, Process = set_command (Process_init ?p d) ?cmd\<rparr>"
    let ?qu1 = "qu @ [(100 + length qu, ?ent)]"
    have fresh: "100 + length qu \<notin> fst ` set qu"
    proof -
      have "fst ` set qu = set (map fst qu)" by simp
      also have "\<dots> = {100 ..< 100 + length qu}" using Cons.prems(3) by simp
      finally show ?thesis by simp
    qed
    have upd: "AList.update (100 + length qu) ?ent qu = ?qu1"
      using fresh by (rule update_fresh)
    have "[100 ..< Suc (100 + length qu)] = [100 ..< 100 + length qu] @ [100 + length qu]"
      by (rule upt_Suc_append) simp
    then have keys1: "map fst ?qu1 = [100 ..< 100 + length ?qu1]"
      using Cons.prems(3) by simp
    from Cons.IH [of ?qu1] Cons.prems(1,2) keys1 obtain qu' where q':
      "init_loop e self computer inp ds (?qu1, 100 + length ?qu1, length ?qu1)
                 = Inr (qu', 100 + length qu', length qu')"
      "map fst qu' = [100 ..< 100 + length qu']"
      "map (\<lambda>x. name (Process (snd x))) qu'
               = map (\<lambda>x. name (Process (snd x))) ?qu1
                 @ filter (\<lambda>d. sanity_check e self (path_join (root_dir self) d) = Inr True) ds"
      "map (\<lambda>x. ID (snd x)) qu' = map (\<lambda>x. ID (snd x)) ?qu1 @ [100 + length ?qu1 ..< 100 + length qu']"
      by auto
    have "length (map (\<lambda>x. name (Process (snd x))) qu')
            = length (map (\<lambda>x. name (Process (snd x))) ?qu1
                 @ filter (\<lambda>d. sanity_check e self (path_join (root_dir self) d) = Inr True) ds)"
      using q'(3) by simp
    then have len: "length qu < length qu'" by simp
    have step: "init_loop e self computer inp (d # ds) (qu, 100 + length qu, length qu)
          = init_loop e self computer inp ds (?qu1, 100 + length ?qu1, length ?qu1)"
      using sc upd build_command_valid [OF Cons.prems(1), of ?p inp] by (simp add: Let_def)
    have ids: "[100 + length qu ..< 100 + length qu'] = (100 + length qu) # [100 + length ?qu1 ..< 100 + length qu']"
      using len by (simp add: upt_conv_Cons)
    show ?thesis
      using step q' sc ids
      by (intro exI [of _ qu']) (simp add: set_command_def Process_init_def)
  qed
qed


subsection \<open>Building the queue\<close>

text \<open>
  C2. When the computer kind is valid and every candidate can be listed,
  \<^verbatim>\<open>init_processes\<close> returns a queue whose keys are 100, 101, ... with no gap, each entry
  carrying its key as \<open>ID\<close>, and whose jobs are exactly the candidates that pass
  \<^verbatim>\<open>sanity_check\<close>, in the order of \<open>sim_dir_list\<close>; the others are skipped without an
  error. \<open>num_procs\<close> is the number of jobs.
\<close>

theorem init_processes_ids:
  assumes "computer = ''CPU'' \<or> computer = ''GPU''"
    and "\<forall>d \<in> set (sim_dir_list self). listdir e (path_join (root_dir self) d) \<noteq> None"
  shows "\<exists>qu. init_processes e self computer inp
                = Inr (self\<lparr>queue := Some qu, num_procs := length qu\<rparr>)
           \<and> map fst qu = [100 ..< 100 + length qu]
           \<and> map (\<lambda>x. ID (snd x)) qu = map fst qu
           \<and> map (\<lambda>x. name (Process (snd x))) qu
               = filter (\<lambda>d. sanity_check e self (path_join (root_dir self) d) = Inr True)
                   (sim_dir_list self)"
proof -
  have "map fst ([] :: (nat \<times> entry) list) = [100 ..< 100 + length ([] :: (nat \<times> entry) list)]"
    by simp
  from init_loop_props [OF assms(1) assms(2) this, of inp]
  obtain qu where qu:
    "init_loop e self computer inp (sim_dir_list self) ([], 100, 0) = Inr (qu, 100 + length qu, length qu)"
    "map fst qu = [100 ..< 100 + length qu]"
    "map (\<lambda>x. name (Process (snd x))) qu
       = filter (\<lambda>d. sanity_check e self (path_join (root_dir self) d) = Inr True)
           (sim_dir_list self)"
    "map (\<lambda>x. ID (snd x)) qu = [100 ..< 100 + length qu]"
    by auto
  have r: "init_processes e self computer inp = Inr (self\<lparr>queue := Some qu, num_procs := length qu\<rparr>)"
    using assms(1) qu(1) by (auto simp: init_processes_def)
  have i: "map (\<lambda>x. ID (snd x)) qu = map fst qu"
    unfolding qu(2) qu(4) ..
  show ?thesis
    by (intro conjI exI [of _ qu]) (rule r qu(2) i qu(3))+
qed

theorem init_processes_ids_witness:
  "(''CPU'' = ''CPU'' \<or> ''CPU'' = ''GPU'')
   \<and> listdir ex_env (path_join (root_dir ex_self) ''a'') \<noteq> None
   \<and> listdir ex_env (path_join (root_dir ex_self) ''b'') \<noteq> None
   \<and> listdir ex_env (path_join (root_dir ex_self) ''c'') \<noteq> None
   \<and> (\<exists>qu. init_processes ex_env ex_self ''CPU'' ''run.lmp''
               = Inr (ex_self\<lparr>queue := Some qu, num_procs := 2\<rparr>)
          \<and> map fst qu = [100, 101]
          \<and> map (\<lambda>x. ID (snd x)) qu = [100, 101]
          \<and> map (\<lambda>x. name (Process (snd x))) qu = [''a'', ''c''])"
proof -
  have ls: "listdir ex_env (path_join (root_dir ex_self) ''a'') \<noteq> None"
    "listdir ex_env (path_join (root_dir ex_self) ''b'') \<noteq> None"
    "listdir ex_env (path_join (root_dir ex_self) ''c'') \<noteq> None"
    by (simp_all add: ex_env_def ex_listdir_def ex_self_def path_join_def endswith_sep_def)
  then have all: "\<forall>d \<in> set (sim_dir_list ex_self).
      listdir ex_env (path_join (root_dir ex_self) d) \<noteq> None"
    by (simp add: ex_self_def)
  have flt: "filter (\<lambda>d. sanity_check ex_env ex_self (path_join (root_dir ex_self) d) = Inr True)
               (sim_dir_list ex_self) = [''a'', ''c'']"
    by (simp add: sanity_check_def ex_env_def ex_listdir_def ex_self_def path_join_def
        endswith_sep_def)
  have c: "''CPU'' = ''CPU'' \<or> ''CPU'' = ''GPU''" by simp
  from init_processes_ids [OF c all, of "''run.lmp''"] have "\<exists>qu. init_processes ex_env ex_self ''CPU'' ''run.lmp''
                = Inr (ex_self\<lparr>queue := Some qu, num_procs := length qu\<rparr>)
           \<and> map fst qu = [100 ..< 100 + length qu]
           \<and> map (\<lambda>x. ID (snd x)) qu = map fst qu
           \<and> map (\<lambda>x. name (Process (snd x))) qu = [''a'', ''c'']"
    unfolding flt .
  then obtain qu where qu:
    "init_processes ex_env ex_self ''CPU'' ''run.lmp''
       = Inr (ex_self\<lparr>queue := Some qu, num_procs := length qu\<rparr>)"
    "map fst qu = [100 ..< 100 + length qu]"
    "map (\<lambda>x. ID (snd x)) qu = map fst qu"
    "map (\<lambda>x. name (Process (snd x))) qu = [''a'', ''c'']"
    by (elim exE conjE) (rule that; assumption)
  have "length (map (\<lambda>x. name (Process (snd x))) qu) = 2" unfolding qu(4) by simp
  then have len: "length qu = 2" by simp
  have "[100 ..< 100 + length qu] = [100, 101]" unfolding len by (simp add: upt_rec)
  then have k: "map fst qu = [100, 101]" and i: "map (\<lambda>x. ID (snd x)) qu = [100, 101]"
    using qu(2,3) by simp_all
  have r: "init_processes ex_env ex_self ''CPU'' ''run.lmp''
       = Inr (ex_self\<lparr>queue := Some qu, num_procs := 2\<rparr>)"
    using qu(1) len by simp
  show ?thesis
    by (intro conjI exI [of _ qu]) (rule ls c r k i qu(4))+
qed

text \<open>
  C9. With a computer kind other than \<^verbatim>\<open>CPU\<close> and \<^verbatim>\<open>GPU\<close>, \<^verbatim>\<open>init_processes\<close> raises
  the \<^verbatim>\<open>ValueError\<close> that names the kind, whatever the file system holds: no directory is
  visited and no command is built. The entry point then stops with that error before
  \<^verbatim>\<open>run_process_loop\<close>, the world untouched: nothing has been launched or printed.
\<close>

theorem invalid_computer:
  assumes "computer \<noteq> ''CPU''" and "computer \<noteq> ''GPU''"
  shows "init_processes e self computer inp = Inl (ValueError (computer_message computer))
         \<and> (\<forall>queue'. Qmighty_init e rootdir dirs upd (Some (SuffixStr inp)) = Inr queue'
               \<longrightarrow> main e rootdir dirs inp computer upd w
                     = Some (Raise (ValueError (computer_message computer)) w))"
  using assms by (simp add: init_processes_def main_def)

theorem invalid_computer_witness:
  "''x'' \<noteq> ''CPU'' \<and> ''x'' \<noteq> ''GPU''
   \<and> init_processes ex_env ex_self ''x'' ''run.lmp''
       = Inl (ValueError (''computer=x, not '' @ [CHR 0x27] @ ''CPU'' @ [CHR 0x27] @ '' or ''
                @ [CHR 0x27] @ ''GPU'' @ [CHR 0x27]))
   \<and> main ex_env ''sims'' None ''run.lmp'' ''x'' (Finite 1) \<lparr>ticks = 0, trace = []\<rparr>
       = Some (Raise (ValueError (computer_message ''x'')) \<lparr>ticks = 0, trace = []\<rparr>)"
proof -
  have 1: "''x'' \<noteq> ''CPU''" and 2: "''x'' \<noteq> ''GPU''" by simp_all
  have i: "\<exists>q. Qmighty_init ex_env ''sims'' None (Finite 1) (Some (SuffixStr ''run.lmp'')) = Inr q"
    by (simp add: Qmighty_init_def ex_env_def ex_listdir_def)
  show ?thesis
    using i invalid_computer [OF 1 2, of ex_env ex_self "''run.lmp''" "''sims''" None "Finite 1"
        "\<lparr>ticks = 0, trace = []\<rparr>"]
    by (auto simp: computer_message_def)
qed

subsection \<open>The command lines\<close>

text \<open>
  With a path and an input filename free of white space and not empty, the two command
  lines are the tokens the program means: launcher, process count, working directory,
  binary, the GPU flags, input flag and input file.
\<close>

lemma split_acc_word:
  "\<forall>c \<in> set word. \<not> is_space c \<Longrightarrow> split_acc cur (word @ s) = split_acc (cur @ word) s"
  by (induction word arbitrary: cur) auto

lemma split_word_end:
  assumes "\<forall>c \<in> set word. \<not> is_space c" and "word \<noteq> []"
  shows "split_acc [] word = [word]"
  using split_acc_word [OF assms(1), of "[]" "[]"] assms(2) by simp

lemma cpu_command_tokens:
  assumes "\<forall>c \<in> set p. \<not> is_space c" "p \<noteq> []" "\<forall>c \<in> set i. \<not> is_space c" "i \<noteq> []"
  shows "cpu_command p i = [''mpirun'', ''-np'', ''4'', ''-wdir'', p, ''lmp'', ''-in'', i]"
proof -
  have 1: "split_acc [] (p @ s) = split_acc p s" for s
    using assms(1) split_acc_word [of p "[]" s] by simp
  have 3: "split (''mpirun -np 4 -wdir '' @ t) = [''mpirun'', ''-np'', ''4'', ''-wdir''] @ split_acc [] t" for t
    by (simp add: split_def is_space_def)
  have 4: "split_acc p ('' lmp -in '' @ t) = [p, ''lmp'', ''-in''] @ split_acc [] t" for t
    using assms(2) by (simp add: is_space_def)
  show ?thesis
    unfolding cpu_command_def 3 1 4 using split_word_end [OF assms(3,4)] by simp
qed

lemma gpu_command_tokens:
  assumes "\<forall>c \<in> set p. \<not> is_space c" "p \<noteq> []" "\<forall>c \<in> set i. \<not> is_space c" "i \<noteq> []"
  shows "gpu_command p i =
     [''mpirun'', ''-n'', ''1'', ''-wdir'', p, ''lmp'', ''-k'', ''on'', ''g'', ''1'', ''-sf'', ''kk'',
      ''-pk'', ''kokkos'', ''newton'', ''on'', ''neigh'', ''half'', ''-in'', i]"
proof -
  have 1: "split_acc [] (p @ s) = split_acc p s" for s
    using assms(1) split_acc_word [of p "[]" s] by simp
  have 3: "split (''mpirun -n 1 -wdir '' @ t) = [''mpirun'', ''-n'', ''1'', ''-wdir''] @ split_acc [] t" for t
    by (simp add: split_def is_space_def)
  have 4: "split_acc p ('' lmp -k on g 1 -sf kk -pk kokkos newton on neigh half -in '' @ t)
       = [p, ''lmp'', ''-k'', ''on'', ''g'', ''1'', ''-sf'', ''kk'',
      ''-pk'', ''kokkos'', ''newton'', ''on'', ''neigh'', ''half'', ''-in''] @ split_acc [] t" for t
    using assms(2) by (simp add: is_space_def)
  show ?thesis
    unfolding gpu_command_def 3 1 4 using split_word_end [OF assms(3,4)] by simp
qed

text \<open>
  C3, at a job directory whose name holds a space. The claim wants the working directory
  of the command to be the job's path. For the directory \<^verbatim>\<open>my sim\<close> under \<^verbatim>\<open>sims\<close> the
  job's path is \<^verbatim>\<open>sims/my sim\<close>, and there the log file is opened, but the command line
  is cut at every white space: \<^verbatim>\<open>-wdir\<close> is followed by \<^verbatim>\<open>sims/my\<close> and a stray
  argument \<^verbatim>\<open>sim\<close>.
\<close>

theorem command_cuts_path_at_white_space:
  "init_processes ws_env ws_self ''CPU'' ''run.lmp''
     = Inr (ws_self\<lparr>queue := Some [(100, \<lparr>ID = 100, Process =
              \<lparr>path = ''sims/my sim'', name = ''my sim'', outfile_name = ''qmighty-out.txt'',
               elapsed_time = 0, remaining_time = 0,
               command = Some [''mpirun'', ''-np'', ''4'', ''-wdir'', ''sims/my'', ''sim'',
                               ''lmp'', ''-in'', ''run.lmp''],
               complete = False\<rparr>\<rparr>)], num_procs := 1\<rparr>)"
  by (simp add: init_processes_def ws_env_def ws_self_def ex_env_def ex_self_def sanity_check_def
      path_join_def endswith_sep_def build_command_def cpu_command_def split_def is_space_def
      set_command_def Process_init_def)

subsection \<open>Sampling\<close>

text \<open>
  Three cases of \<^verbatim>\<open>update_timings\<close>: the reader raises or returns \<^verbatim>\<open>None\<close>, it
  returns a column with a finite last element, it returns an empty column.
\<close>

lemma update_timings_no_data:
  assumes "log_get e (outfile self) (Suc (ticks w)) = LogRaises
           \<or> log_get e (outfile self) (Suc (ticks w)) = LogNone"
  shows "update_timings e self t0 w
     = Inr (self\<lparr>elapsed_time := clock e (ticks w) - t0, remaining_time := 0\<rparr>,
            w\<lparr>ticks := Suc (ticks w)\<rparr>)"
  using assms by (auto simp: update_timings_def time_time_def outfile_def)

lemma update_timings_data:
  assumes "log_get e (outfile self) (Suc (ticks w)) = LogData xs" and "xs \<noteq> []"
    and "last xs = Finite x"
  shows "update_timings e self t0 w
     = Inr (self\<lparr>elapsed_time := clock e (ticks w) - t0,
                 remaining_time := of_int (py_round x)\<rparr>,
            w\<lparr>ticks := Suc (ticks w)\<rparr>)"
  using assms by (auto simp: update_timings_def time_time_def outfile_def round_float_def)

lemma update_timings_empty:
  assumes "log_get e (outfile self) (Suc (ticks w)) = LogData []"
  shows "update_timings e self t0 w = Inl (IndexError, w\<lparr>ticks := Suc (ticks w)\<rparr>)"
  using assms by (auto simp: update_timings_def time_time_def outfile_def)

text \<open>
  C4, at a log whose column \<^verbatim>\<open>CPULeft\<close> is there but empty. The claim wants
  \<^verbatim>\<open>update_timings\<close> never to raise and the remaining time to be 0 when the log holds
  no data point. The index \<^verbatim>\<open>remaining_time[-1]\<close> stands after the \<^verbatim>\<open>try\<close> block, so
  on an empty column the method raises \<^verbatim>\<open>IndexError\<close>.
\<close>

theorem update_timings_raises_on_empty_column:
  "update_timings empty_log_env (Process_init ''sims/a'' ''a'') 0 w0
     = Inl (IndexError, \<lparr>ticks = 1, trace = []\<rparr>)"
  by (simp add: update_timings_def time_time_def empty_log_env_def ex_env_def w0_def)

text \<open>A column that ends with not a number stops \<^verbatim>\<open>round\<close>, outside the \<^verbatim>\<open>try\<close> as well.\<close>

lemma update_timings_not_finite:
  assumes "log_get e (outfile self) (Suc (ticks w)) = LogData xs" and "xs \<noteq> []"
    and "last xs = NaN"
  shows "update_timings e self t0 w
     = Inl (ValueError ''cannot convert float NaN to integer'', w\<lparr>ticks := Suc (ticks w)\<rparr>)"
  using assms by (simp add: update_timings_def time_time_def outfile_def round_float_def)

subsection \<open>The run loop\<close>

lemma ex_init:
  "init_processes ex_env ex_self ''CPU'' ''run.lmp''
     = Inr (ex_self\<lparr>queue := Some ex_jobs, num_procs := 2\<rparr>)"
  by (simp add: init_processes_def ex_env_def ex_listdir_def ex_self_def ex_jobs_def
      sanity_check_def path_join_def endswith_sep_def build_command_def cpu_command_def
      split_def is_space_def Let_def)

lemma update_process_frame [simp]:
  "update_frequency (update_process pid f self) = update_frequency self"
  "num_procs (update_process pid f self) = num_procs self"
  by (simp_all add: update_process_def)


lemma showable_id [simp]: "showable (self\<lparr>id_currently_running := k\<rparr>) = showable self"
  by (simp add: showable_def)

lemma launches_emit [simp]: "launches (emit evs w) = launches w @ filter is_launch evs"
  by (simp add: launches_def emit_def)

lemma reports_emit [simp]: "reports (emit evs w) = reports w @ filter is_report evs"
  by (simp add: reports_def emit_def)

lemma ticks_emit [simp]: "ticks (emit evs w) = ticks w"
  by (simp add: emit_def)

lemma launches_ticks [simp]: "launches (w\<lparr>ticks := k\<rparr>) = launches w"
  by (simp add: launches_def)

lemma reports_ticks [simp]: "reports (w\<lparr>ticks := k\<rparr>) = reports w"
  by (simp add: reports_def)


lemma py_round_0 [simp]: "py_round 0 = 0"
  by (simp add: py_round_def)

lemma timedelta_ok_0 [simp]: "timedelta_ok 0"
  by (simp add: timedelta_ok_def)














lemma launch_events_simps [simp]:
  "launch_events [] = []"
  "launch_events (item # rest)
     = (case command (Process (snd item)) of None \<Rightarrow> [] | Some cmd \<Rightarrow> [Popen cmd])
       @ launch_events rest"
  "launch_events (xs @ ys) = launch_events xs @ launch_events ys"
  by (simp_all add: launch_events_def)















subsection \<open>The run loop in the examples\<close>















subsection \<open>The entries of the queue\<close>

text \<open>
  Every entry that \<^verbatim>\<open>init_processes\<close> builds holds the path joined from the root and the
  directory name, and the command line made from that path.
\<close>

lemma in_update_cases: "x \<in> set (AList.update k v al) \<Longrightarrow> x = (k, v) \<or> x \<in> set al"
  by (induction al) (auto split: if_splits)

lemma init_loop_entries:
  assumes "init_loop e self computer inp ds (qu, p, n) = Inr (qu', p', n')"
    and "\<forall>x \<in> set qu. path (Process (snd x)) = path_join (root_dir self) (name (Process (snd x)))
            \<and> command (Process (snd x)) = build_command computer (path (Process (snd x))) inp"
  shows "\<forall>x \<in> set qu'. path (Process (snd x)) = path_join (root_dir self) (name (Process (snd x)))
            \<and> command (Process (snd x)) = build_command computer (path (Process (snd x))) inp"
  using assms
proof (induction ds arbitrary: qu p n)
  case Nil
  then show ?case by simp
next
  case (Cons d ds)
  let ?sp = "path_join (root_dir self) d"
  have unfold: "init_loop e self computer inp (d # ds) (qu, p, n) =
     (case sanity_check e self ?sp of
        Inl err \<Rightarrow> Inl err
      | Inr False \<Rightarrow> init_loop e self computer inp ds (qu, p, n)
      | Inr True \<Rightarrow>
          (case build_command computer ?sp inp of
             None \<Rightarrow> Inl UnboundLocalError
           | Some cmd \<Rightarrow>
               init_loop e self computer inp ds
                 (AList.update p \<lparr>ID = p, Process = set_command (Process_init ?sp d) cmd\<rparr> qu,
                  p + 1, n + 1)))"
    by (simp add: Let_def split: sum.splits bool.splits option.splits)
  show ?case
  proof (cases "sanity_check e self ?sp")
    case (Inl err)
    then show ?thesis using Cons.prems(1) unfolding unfold by simp
  next
    case (Inr ok)
    show ?thesis
    proof (cases ok)
      case False
      then have "init_loop e self computer inp ds (qu, p, n) = Inr (qu', p', n')"
        using Inr Cons.prems(1) unfolding unfold by simp
      from Cons.IH [OF this Cons.prems(2)] show ?thesis .
    next
      case True
      show ?thesis
      proof (cases "build_command computer ?sp inp")
        case None
        then show ?thesis using Inr True Cons.prems(1) unfolding unfold by simp
      next
        case (Some cmd)
        let ?ent = "\<lparr>ID = p, Process = set_command (Process_init ?sp d) cmd\<rparr>"
        have step: "init_loop e self computer inp ds (AList.update p ?ent qu, p + 1, n + 1)
                    = Inr (qu', p', n')"
          using Inr True Some Cons.prems(1) unfolding unfold by simp
        have new: "path (Process ?ent) = path_join (root_dir self) (name (Process ?ent))
            \<and> command (Process ?ent) = build_command computer (path (Process ?ent)) inp"
          using Some by (simp add: set_command_def Process_init_def)
        have "\<forall>x \<in> set (AList.update p ?ent qu).
              path (Process (snd x)) = path_join (root_dir self) (name (Process (snd x)))
            \<and> command (Process (snd x)) = build_command computer (path (Process (snd x))) inp"
        proof
          fix x assume "x \<in> set (AList.update p ?ent qu)"
          then have "x = (p, ?ent) \<or> x \<in> set qu" by (rule in_update_cases)
          then show "path (Process (snd x)) = path_join (root_dir self) (name (Process (snd x)))
            \<and> command (Process (snd x)) = build_command computer (path (Process (snd x))) inp"
          proof
            assume "x = (p, ?ent)"
            then have "snd x = ?ent" by simp
            then show ?thesis using new by simp
          next
            assume "x \<in> set qu"
            then show ?thesis using Cons.prems(2) by blast
          qed
        qed
        from Cons.IH [OF step this] show ?thesis .
      qed
    qed
  qed
qed

lemma init_processes_entries:
  assumes "init_processes e self computer inp = Inr self'" and "queue self' = Some qu"
    and "x \<in> set qu"
  shows "path (Process (snd x)) = path_join (root_dir self) (name (Process (snd x)))
         \<and> command (Process (snd x))
            = Some (if computer = ''GPU'' then gpu_command (path (Process (snd x))) inp
                    else cpu_command (path (Process (snd x))) inp)"
proof -
  from assms(1) have v: "computer = ''CPU'' \<or> computer = ''GPU''"
    by (auto simp: init_processes_def split: if_splits)
  from assms(1,2) v obtain p n where
    "init_loop e self computer inp (sim_dir_list self) ([], 100, 0) = Inr (qu, p, n)"
    by (auto simp: init_processes_def split: if_splits sum.splits)
  from init_loop_entries [OF this] assms(3)
  have "path (Process (snd x)) = path_join (root_dir self) (name (Process (snd x)))
            \<and> command (Process (snd x)) = build_command computer (path (Process (snd x))) inp"
    by simp
  then show ?thesis using build_command_valid [OF v] by simp
qed

end
